theory Spec2Isabelle
  imports Main "HOL-Library.Multiset"
begin

section \<open>Data model\<close>

text \<open>
  A fetched page item, as \<^verbatim>\<open>src/services/search.ts\<close> and the strategies of \<^verbatim>\<open>./api\<close> read it:
  the four \<^verbatim>\<open>item.system\<close> attributes and the two optional slug elements.
  \<^verbatim>\<open>item.elements.url_slug?.value\<close> is \<open>None\<close> when the element is absent.
\<close>

record PageItem =
  system_name :: string
  system_codename :: string
  system_type :: string
  system_language :: string
  elements_url_slug :: "string option"
  elements_slug :: "string option"

text \<open>The literal union \<^verbatim>\<open>"url_slug" | "slug"\<close>.\<close>

datatype SlugField = url_slug | slug

text \<open>
  The anonymous object type of \<^verbatim>\<open>buildSlugMap\<close>, \<^verbatim>\<open>findTrueDuplicates\<close> and
  \<^verbatim>\<open>groupItemsByCodename\<close>: the entries of the slug map and the per-entity summaries that
  the grouper returns have the same four fields.
\<close>

record SlugEntry =
  name :: string
  codename :: string
  language :: string
  slugField :: SlugField

text \<open>\<^verbatim>\<open>ContentItem\<close>, the flat record that \<^verbatim>\<open>formatSDKItem\<close> produces.\<close>

record ContentItem =
  ci_name :: string
  ci_codename :: string
  ci_type :: string
  ci_language :: string
  ci_slug :: string
  ci_slugField :: SlugField

text \<open>One element of \<^verbatim>\<open>findTrueDuplicates\<close>' result: \<^verbatim>\<open>{ slug, items }\<close>.\<close>

record DuplicateGroup =
  dg_slug :: string
  dg_items :: "SlugEntry list"

text \<open>
  A thrown value. The collaborator client rejects with a message of its own; the only
  exception the code of this repository can raise by itself is a \<^verbatim>\<open>TypeError\<close>.
\<close>

datatype js_exn = FetchFailure string | TypeError string

fun message :: "js_exn \<Rightarrow> string" where
  "message (FetchFailure m) = m"
| "message (TypeError m) = m"

section \<open>JavaScript values\<close>

text \<open>Truthiness of an optional string: \<^verbatim>\<open>undefined\<close> and \<^verbatim>\<open>""\<close> are falsy.\<close>

definition truthy :: "string option \<Rightarrow> bool" where
  "truthy v = (case v of None \<Rightarrow> False | Some s \<Rightarrow> s \<noteq> [])"

text \<open>\<^verbatim>\<open>a || b\<close> on optional strings.\<close>

definition or_else :: "string option \<Rightarrow> string option \<Rightarrow> string option" where
  "or_else a b = (if truthy a then a else b)"

text \<open>\<^verbatim>\<open>s || d\<close> for a string \<open>s\<close> and a default literal \<open>d\<close>.\<close>

definition or_default :: "string \<Rightarrow> string \<Rightarrow> string" where
  "or_default s d = (if s \<noteq> [] then s else d)"

text \<open>\<^verbatim>\<open>xs.join(sep)\<close>.\<close>

fun join :: "string \<Rightarrow> string list \<Rightarrow> string" where
  "join sep [] = []"
| "join sep [x] = x"
| "join sep (x # y # ys) = x @ sep @ join sep (y # ys)"

subsection \<open>The \<^verbatim>\<open>Map\<close> of \<^verbatim>\<open>buildSlugMap\<close>\<close>

text \<open>
  A JavaScript \<^verbatim>\<open>Map\<close> iterates in insertion order and has no inherited keys: an
  association list with distinct keys, a new key going to the end, an existing key
  keeping its place.
\<close>

type_synonym 'v js_map = "(string \<times> 'v) list"

definition map_has :: "'v js_map \<Rightarrow> string \<Rightarrow> bool" where
  "map_has m k = (k \<in> set (map fst m))"

definition map_get :: "'v js_map \<Rightarrow> string \<Rightarrow> 'v option" where
  "map_get m k = map_of m k"

fun map_set :: "'v js_map \<Rightarrow> string \<Rightarrow> 'v \<Rightarrow> 'v js_map" where
  "map_set [] k v = [(k, v)]"
| "map_set ((k', v') # m) k v =
     (if k' = k then (k, v) # m else (k', v') # map_set m k v)"

subsection \<open>The plain object of \<^verbatim>\<open>groupItemsByCodename\<close>\<close>

text \<open>
  The accumulator of the reducer is an object literal \<^verbatim>\<open>{}\<close>, so a read
  \<^verbatim>\<open>acc[k]\<close> of a key that is no own property goes on to \<^verbatim>\<open>Object.prototype\<close>.
  These are the property names found there (the standard ones and the legacy accessors);
  each holds a function, \<^verbatim>\<open>__proto__\<close> holds \<^verbatim>\<open>Object.prototype\<close> itself: all are
  truthy and none has a \<^verbatim>\<open>push\<close> method.
\<close>

definition objectPrototypeKeys :: "string list" where
  "objectPrototypeKeys =
     [''constructor'', ''hasOwnProperty'', ''isPrototypeOf'', ''propertyIsEnumerable'',
      ''toLocaleString'', ''toString'', ''valueOf'', ''__proto__'',
      ''__defineGetter__'', ''__defineSetter__'', ''__lookupGetter__'', ''__lookupSetter__'']"

text \<open>The own properties of the object, in creation order.\<close>

type_synonym 'v js_object = "(string \<times> 'v) list"

datatype 'v lookup = Undefined | Own 'v | Inherited

definition obj_get :: "'v js_object \<Rightarrow> string \<Rightarrow> 'v lookup" where
  "obj_get acc k =
     (case map_of acc k of
        Some v \<Rightarrow> Own v
      | None \<Rightarrow> if k \<in> set objectPrototypeKeys then Inherited else Undefined)"

text \<open>
  \<^verbatim>\<open>Object.entries\<close> lists the own properties whose key is an array index (a canonical
  decimal numeral below \<open>2^32 - 1\<close>) first, in ascending numeric order, then the other
  keys in creation order.
\<close>

definition isDigit :: "char \<Rightarrow> bool" where
  "isDigit c = (48 \<le> (of_char c :: nat) \<and> (of_char c :: nat) \<le> 57)"

definition indexValue :: "string \<Rightarrow> nat" where
  "indexValue s = foldl (\<lambda>n c. 10 * n + ((of_char c :: nat) - 48)) 0 s"

definition isArrayIndex :: "string \<Rightarrow> bool" where
  "isArrayIndex s =
     (case s of
        [] \<Rightarrow> False
      | c # cs \<Rightarrow> list_all isDigit s \<and> (if cs = [] then True else c \<noteq> CHR ''0'')
                 \<and> indexValue s \<le> 4294967294)"

definition objectEntries :: "'v js_object \<Rightarrow> (string \<times> 'v) list" where
  "objectEntries obj =
     sort_key (\<lambda>kv. indexValue (fst kv)) (filter (\<lambda>kv. isArrayIndex (fst kv)) obj)
     @ filter (\<lambda>kv. \<not> isArrayIndex (fst kv)) obj"

section \<open>The duplicate detection of \<^verbatim>\<open>src/services/search.ts\<close>\<close>

subsection \<open>\<^verbatim>\<open>buildSlugMap\<close>\<close>

text \<open>\<^verbatim>\<open>item.elements.url_slug?.value || item.elements.slug?.value\<close>.\<close>

definition slugValue :: "PageItem \<Rightarrow> string option" where
  "slugValue item = or_else (elements_url_slug item) (elements_slug item)"

text \<open>The object literal pushed by the loop body of \<^verbatim>\<open>buildSlugMap\<close>.\<close>

definition slugEntry :: "PageItem \<Rightarrow> SlugEntry" where
  "slugEntry item =
     \<lparr> name = or_default (system_name item) ''Unknown'',
       codename = or_default (system_codename item) ''unknown'',
       language = or_default (system_language item) ''unknown'',
       slugField = (if truthy (elements_url_slug item) then url_slug else slug) \<rparr>"

text \<open>
  One iteration of the loop: \<^verbatim>\<open>continue\<close> on a falsy slug, create the list on the
  first encounter of the key, then \<^verbatim>\<open>slugMap.get(slug)?.push(...)\<close>.
\<close>

definition buildSlugMap_step :: "SlugEntry list js_map \<Rightarrow> PageItem \<Rightarrow> SlugEntry list js_map" where
  "buildSlugMap_step slugMap item =
     (case slugValue item of
        None \<Rightarrow> slugMap
      | Some s \<Rightarrow>
          if s = [] then slugMap
          else
            let m1 = (if \<not> map_has slugMap s then map_set slugMap s [] else slugMap)
            in (case map_get m1 s of
                  None \<Rightarrow> m1
                | Some entries \<Rightarrow> map_set m1 s (entries @ [slugEntry item])))"

definition buildSlugMap :: "PageItem list \<Rightarrow> SlugEntry list js_map" where
  "buildSlugMap items = foldl buildSlugMap_step [] items"

subsection \<open>\<^verbatim>\<open>groupItemsByCodename\<close>\<close>

text \<open>
  The reducer: \<^verbatim>\<open>if (!acc[k]) acc[k] = []\<close>, then \<^verbatim>\<open>acc[k].push(item)\<close>. An own
  property holds an array, which is truthy; an inherited one is truthy too, so nothing is
  created, and the call of its missing \<^verbatim>\<open>push\<close> raises a \<^verbatim>\<open>TypeError\<close>. Creating
  an own property and assigning to one is \<open>map_set\<close> on the list of own properties.
\<close>

definition group_step :: "SlugEntry list js_object \<Rightarrow> SlugEntry \<Rightarrow> js_exn + SlugEntry list js_object" where
  "group_step acc item =
     (let k = codename item;
          acc1 = (if obj_get acc k = Undefined then map_set acc k [] else acc)
      in (case obj_get acc1 k of
            Own entries \<Rightarrow> Inr (map_set acc1 k (entries @ [item]))
          | Inherited \<Rightarrow> Inl (TypeError ''acc[item.codename].push is not a function'')
          | Undefined \<Rightarrow> Inl (TypeError ''Cannot read properties of undefined (reading 'push')'')))"

fun group_reduce :: "SlugEntry list js_object \<Rightarrow> SlugEntry list \<Rightarrow> js_exn + SlugEntry list js_object" where
  "group_reduce acc [] = Inr acc"
| "group_reduce acc (item # items) =
     (case group_step acc item of
        Inl e \<Rightarrow> Inl e
      | Inr acc' \<Rightarrow> group_reduce acc' items)"

text \<open>
  The callback of the final \<^verbatim>\<open>map\<close>; \<^verbatim>\<open>languageItems[0].name\<close> on an empty array
  would raise.
\<close>

definition summarize :: "string \<times> SlugEntry list \<Rightarrow> js_exn + SlugEntry" where
  "summarize kv =
     (case snd kv of
        [] \<Rightarrow> Inl (TypeError ''Cannot read properties of undefined (reading 'name')'')
      | first # rest \<Rightarrow>
          Inr \<lparr> name = name first,
                codename = fst kv,
                language = join '', '' (map language (first # rest)),
                slugField = slugField first \<rparr>)"

text \<open>\<^verbatim>\<open>xs.map(f)\<close> for a callback that may throw: the first exception ends the map.\<close>

fun map_throwing :: "('a \<Rightarrow> js_exn + 'b) \<Rightarrow> 'a list \<Rightarrow> js_exn + 'b list" where
  "map_throwing f [] = Inr []"
| "map_throwing f (x # xs) =
     (case f x of
        Inl e \<Rightarrow> Inl e
      | Inr y \<Rightarrow> (case map_throwing f xs of Inl e \<Rightarrow> Inl e | Inr ys \<Rightarrow> Inr (y # ys)))"

definition groupItemsByCodename :: "SlugEntry list \<Rightarrow> js_exn + SlugEntry list" where
  "groupItemsByCodename items =
     (case group_reduce [] items of
        Inl e \<Rightarrow> Inl e
      | Inr grouped \<Rightarrow> map_throwing summarize (objectEntries grouped))"

subsection \<open>\<^verbatim>\<open>findTrueDuplicates\<close>\<close>

text \<open>The filter callback: \<^verbatim>\<open>new Set(items.map(item => item.codename)).size > 1\<close>.\<close>

definition uniqueCodenames :: "SlugEntry list \<Rightarrow> string set" where
  "uniqueCodenames items = set (map codename items)"

definition isTrueDuplicate :: "string \<times> SlugEntry list \<Rightarrow> bool" where
  "isTrueDuplicate kv = (card (uniqueCodenames (snd kv)) > 1)"

definition duplicateGroup :: "string \<times> SlugEntry list \<Rightarrow> js_exn + DuplicateGroup" where
  "duplicateGroup kv =
     (case groupItemsByCodename (snd kv) of
        Inl e \<Rightarrow> Inl e
      | Inr g \<Rightarrow> Inr \<lparr> dg_slug = fst kv, dg_items = g \<rparr>)"

definition findTrueDuplicates :: "SlugEntry list js_map \<Rightarrow> js_exn + DuplicateGroup list" where
  "findTrueDuplicates slugMap = map_throwing duplicateGroup (filter isTrueDuplicate slugMap)"

section \<open>Configuration (\<^verbatim>\<open>src/config/index.ts\<close>)\<close>

text \<open>
  The process-wide \<^verbatim>\<open>appConfig\<close> object, read at the start of a call; here it is an
  argument. \<^verbatim>\<open>search.ts\<close> and the strategies create their client from
  \<^verbatim>\<open>appConfig.projectId\<close>, so the configuration module embedded is the one that has this
  field, where \<^verbatim>\<open>isConfigValid\<close> is \<^verbatim>\<open>Boolean(appConfig.projectId)\<close>.
\<close>

record AppConfig =
  projectId :: string
  environmentId :: string
  deliveryApiKey :: string
  managementApiKey :: string
  languages :: "string list"
  defaultLanguage :: string

definition isConfigValid :: "AppConfig \<Rightarrow> bool" where
  "isConfigValid cfg = (projectId cfg \<noteq> [])"

definition getConfiguredLanguages :: "AppConfig \<Rightarrow> string list" where
  "getConfiguredLanguages cfg =
     (if languages cfg \<noteq> [] then languages cfg
      else [or_default (defaultLanguage cfg) ''en''])"

section \<open>The collaborator client\<close>

text \<open>
  The two requests the code builds with the Delivery SDK, all for the type \<^verbatim>\<open>page\<close>:
  an \<^verbatim>\<open>equalsFilter\<close> on one of the slug elements with a target slug and a language, and
  the listing of all pages of a language with the two slug elements.
\<close>

datatype query = EqualsFilter SlugField string string | AllItems string

text \<open>
  The client is a parameter: \<^verbatim>\<open>toAllPromise()\<close> answers a request in a state \<open>'w\<close> of
  the outside world with the items of all pages or with a rejection, and leaves a new
  state. A session pairs the world with the log of the requests sent so far.
\<close>

type_synonym 'w client = "query \<Rightarrow> 'w \<Rightarrow> (js_exn + PageItem list) \<times> 'w"

type_synonym 'w session = "'w \<times> query list"

definition toAllPromise :: "'w client \<Rightarrow> query \<Rightarrow> 'w session \<Rightarrow> (js_exn + PageItem list) \<times> 'w session" where
  "toAllPromise cl q s =
     (case cl q (fst s) of (r, w') \<Rightarrow> (r, (w', snd s @ [q])))"

section \<open>The search strategies (module \<^verbatim>\<open>./api\<close>)\<close>

text \<open>
  \<^verbatim>\<open>search.ts\<close> imports the strategies from \<^verbatim>\<open>./api\<close>; in the source files at hand the
  text of that module follows the configuration modules in \<^verbatim>\<open>src/config/index.ts\<close>.
\<close>

text \<open>
  \<^verbatim>\<open>ApiResult\<close>, with the optional fields the strategies set; its fields \<^verbatim>\<open>method\<close>
  and \<^verbatim>\<open>note\<close> are \<open>apiMethod\<close> and \<open>apiNote\<close> here. The diagnostic field
  \<^verbatim>\<open>similarSlugs\<close> (the slugs that contain the target, compared in lower case) is left
  out: computing it raises nothing and no other code reads it.
\<close>

record ApiResult =
  success :: bool
  items :: "ContentItem list"
  error :: "string option"
  apiMethod :: string
  totalItems :: "nat option"
  exactMatches :: "nat option"
  allSlugsCount :: "nat option"
  apiNote :: "string option"

definition createErrorResult :: "string \<Rightarrow> string \<Rightarrow> ApiResult" where
  "createErrorResult msg meth =
     \<lparr> success = False, items = [], error = Some msg, apiMethod = meth,
       totalItems = None, exactMatches = None, allSlugsCount = None, apiNote = None \<rparr>"

definition formatSDKItem :: "PageItem \<Rightarrow> string \<Rightarrow> ContentItem" where
  "formatSDKItem item lang =
     \<lparr> ci_name = or_default (system_name item) ''Unknown'',
       ci_codename = or_default (system_codename item) ''Unknown'',
       ci_type = or_default (system_type item) ''page'',
       ci_language = lang,
       ci_slug = (case slugValue item of
                    None \<Rightarrow> ''No slug''
                  | Some s \<Rightarrow> or_default s ''No slug''),
       ci_slugField = (if truthy (elements_url_slug item) then url_slug else slug) \<rparr>"

text \<open>\<^verbatim>\<open>xs.findIndex(p)\<close>; \<open>None\<close> stands for \<open>-1\<close>.\<close>

fun findIndex :: "('a \<Rightarrow> bool) \<Rightarrow> 'a list \<Rightarrow> nat option" where
  "findIndex p [] = None"
| "findIndex p (x # xs) = (if p x then Some 0 else map_option Suc (findIndex p xs))"

text \<open>
  \<^verbatim>\<open>removeDuplicateItems\<close>, the same function in \<^verbatim>\<open>./api\<close> and in
  \<^verbatim>\<open>search.ts\<close>: an item stays when its index is the first index of its
  codename and language.
\<close>

definition sameCodenameLanguage :: "ContentItem \<Rightarrow> ContentItem \<Rightarrow> bool" where
  "sameCodenameLanguage item i = (ci_codename i = ci_codename item \<and> ci_language i = ci_language item)"

definition removeDuplicateItems :: "ContentItem list \<Rightarrow> ContentItem list" where
  "removeDuplicateItems self =
     map snd (filter (\<lambda>ix. findIndex (sameCodenameLanguage (snd ix)) self = Some (fst ix))
                     (enumerate 0 self))"

definition LANGUAGE_CODES :: "string list" where
  "LANGUAGE_CODES = [''de'', ''en'', ''zh'']"

text \<open>
  One \<^verbatim>\<open>try\<close> block of the loop of \<^verbatim>\<open>searchWithDeliveryApi\<close>: a rejected request is
  logged and adds nothing. Outside these blocks the function creates the client and calls
  \<^verbatim>\<open>removeDuplicateItems\<close>, neither of which raises: its outer \<^verbatim>\<open>catch\<close> has no branch here.
\<close>

definition tryEqualsFilter :: "'w client \<Rightarrow> SlugField \<Rightarrow> string \<Rightarrow> string \<Rightarrow> ContentItem list \<Rightarrow> 'w session
    \<Rightarrow> ContentItem list \<times> 'w session" where
  "tryEqualsFilter cl field targetSlug lang allItems s =
     (case toAllPromise cl (EqualsFilter field targetSlug lang) s of
        (Inl e, s') \<Rightarrow> (allItems, s')
      | (Inr its, s') \<Rightarrow> (allItems @ map (\<lambda>item. formatSDKItem item lang) its, s'))"

fun deliveryLoop :: "'w client \<Rightarrow> string \<Rightarrow> string list \<Rightarrow> ContentItem list \<Rightarrow> 'w session
    \<Rightarrow> ContentItem list \<times> 'w session" where
  "deliveryLoop cl targetSlug [] allItems s = (allItems, s)"
| "deliveryLoop cl targetSlug (lang # langs) allItems s =
     (case tryEqualsFilter cl url_slug targetSlug lang allItems s of
        (allItems1, s1) \<Rightarrow>
          (case tryEqualsFilter cl slug targetSlug lang allItems1 s1 of
             (allItems2, s2) \<Rightarrow> deliveryLoop cl targetSlug langs allItems2 s2))"

definition searchWithDeliveryApi :: "AppConfig \<Rightarrow> 'w client \<Rightarrow> string \<Rightarrow> 'w session \<Rightarrow> ApiResult \<times> 'w session" where
  "searchWithDeliveryApi cfg cl targetSlug s =
     (if \<not> isConfigValid cfg
      then (createErrorResult ''Missing Kontent.ai Project ID configuration.'' ''delivery-sdk'', s)
      else
        (case deliveryLoop cl targetSlug LANGUAGE_CODES [] s of
           (allItems, s') \<Rightarrow>
             let uniqueItems = removeDuplicateItems allItems
             in (\<lparr> success = True, items = uniqueItems, error = None, apiMethod = ''delivery-sdk'',
                    totalItems = Some (length uniqueItems), exactMatches = None,
                    allSlugsCount = None, apiNote = None \<rparr>, s')))"

text \<open>The filter callback of the listings: one of the two slug values is truthy.\<close>

definition hasSlugValue :: "PageItem \<Rightarrow> bool" where
  "hasSlugValue item = truthy (slugValue item)"

text \<open>
  The loop of \<^verbatim>\<open>searchAllItemsDeliveryApi\<close>: no \<^verbatim>\<open>try\<close> inside, a rejected request
  leaves the loop.
\<close>

fun allItemsLoop :: "'w client \<Rightarrow> string list \<Rightarrow> ContentItem list \<Rightarrow> 'w session
    \<Rightarrow> (js_exn + ContentItem list) \<times> 'w session" where
  "allItemsLoop cl [] allItems s = (Inr allItems, s)"
| "allItemsLoop cl (lang # langs) allItems s =
     (case toAllPromise cl (AllItems lang) s of
        (Inl e, s') \<Rightarrow> (Inl e, s')
      | (Inr its, s') \<Rightarrow>
          allItemsLoop cl langs
            (allItems @ map (\<lambda>item. formatSDKItem item lang) (filter hasSlugValue its)) s')"

definition searchAllItemsDeliveryApi :: "AppConfig \<Rightarrow> 'w client \<Rightarrow> string \<Rightarrow> 'w session \<Rightarrow> ApiResult \<times> 'w session" where
  "searchAllItemsDeliveryApi cfg cl targetSlug s =
     (if \<not> isConfigValid cfg
      then (createErrorResult ''Missing Kontent.ai Project ID configuration.'' ''delivery-sdk-all'', s)
      else
        (case allItemsLoop cl LANGUAGE_CODES [] s of
           (Inl e, s') \<Rightarrow> (createErrorResult (message e) ''delivery-sdk-all'', s')
         | (Inr allItems, s') \<Rightarrow>
             let matches = filter (\<lambda>item. ci_slug item = targetSlug) allItems
             in (\<lparr> success = True, items = matches, error = None, apiMethod = ''delivery-sdk-all'',
                    totalItems = Some (length allItems), exactMatches = Some (length matches),
                    allSlugsCount = Some (card (set (map ci_slug allItems))),
                    apiNote = None \<rparr>, s')))"

definition searchWithManagementApi :: "string \<Rightarrow> ApiResult" where
  "searchWithManagementApi targetSlug =
     \<lparr> success = True, items = [], error = None, apiMethod = ''management-api'',
       totalItems = None, exactMatches = None, allSlugsCount = None,
       apiNote = Some ''Management API integration would require @kontent-ai/management-sdk for full implementation'' \<rparr>"

section \<open>The entry points of \<^verbatim>\<open>src/services/search.ts\<close>\<close>

definition missingConfigMessage :: string where
  "missingConfigMessage =
     ''Missing Kontent.ai Project ID configuration. Click '' @ [CHR 0x22] @ ''Show Config''
     @ [CHR 0x22] @ '' to verify settings.''"

subsection \<open>\<^verbatim>\<open>searchSpecificSlug\<close>\<close>

text \<open>The combined result carries the three results of the strategies.\<close>

record SearchResult = ApiResult +
  deliveryApi :: "ApiResult option"
  deliveryApiAllItems :: "ApiResult option"
  managementApi :: "ApiResult option"

text \<open>
  The strategies return a result in every case (each catches what it raises), and neither the
  spread of the three lists nor \<^verbatim>\<open>removeDuplicateItems\<close> raises: the \<^verbatim>\<open>catch\<close> of
  \<^verbatim>\<open>searchSpecificSlug\<close> has nothing to catch and no branch here.
\<close>

definition searchSpecificSlug :: "AppConfig \<Rightarrow> 'w client \<Rightarrow> string \<Rightarrow> 'w session \<Rightarrow> SearchResult \<times> 'w session" where
  "searchSpecificSlug cfg cl targetSlug s =
     (if \<not> isConfigValid cfg
      then (\<lparr> success = False, items = [], error = Some missingConfigMessage, apiMethod = ''none'',
               totalItems = None, exactMatches = None, allSlugsCount = None, apiNote = None,
               deliveryApi = None, deliveryApiAllItems = None, managementApi = None \<rparr>, s)
      else
        (case searchWithDeliveryApi cfg cl targetSlug s of
           (d, s1) \<Rightarrow>
             (case searchAllItemsDeliveryApi cfg cl targetSlug s1 of
                (a, s2) \<Rightarrow>
                  let m = (if managementApiKey cfg \<noteq> [] then Some (searchWithManagementApi targetSlug)
                           else None);
                      allItems = items d @ items a @ (case m of None \<Rightarrow> [] | Some r \<Rightarrow> items r);
                      uniqueItems = removeDuplicateItems allItems
                  in (\<lparr> success = True, items = uniqueItems, error = None, apiMethod = ''combined-sdk'',
                         totalItems = Some (length uniqueItems), exactMatches = None,
                         allSlugsCount = None, apiNote = None,
                         deliveryApi = Some d, deliveryApiAllItems = Some a, managementApi = m \<rparr>,
                      s2))))"

subsection \<open>\<^verbatim>\<open>findDuplicateSlugs\<close>\<close>

record DuplicateResult =
  duplicates :: "DuplicateGroup list"
  dr_totalItems :: "nat option"
  uniqueSlugs :: "nat option"
  dr_error :: "string option"

fun fetchLoop :: "'w client \<Rightarrow> string list \<Rightarrow> PageItem list \<Rightarrow> 'w session
    \<Rightarrow> (js_exn + PageItem list) \<times> 'w session" where
  "fetchLoop cl [] allItems s = (Inr allItems, s)"
| "fetchLoop cl (lang # langs) allItems s =
     (case toAllPromise cl (AllItems lang) s of
        (Inl e, s') \<Rightarrow> (Inl e, s')
      | (Inr its, s') \<Rightarrow> fetchLoop cl langs (allItems @ filter hasSlugValue its) s')"

text \<open>
  The optional parameter \<^verbatim>\<open>languages\<close> is \<open>None\<close> when the caller leaves it out; an
  array, also the empty one, is truthy.
\<close>

definition fetchAllPageItemsWithSlugs :: "AppConfig \<Rightarrow> 'w client \<Rightarrow> string list option \<Rightarrow> 'w session
    \<Rightarrow> (js_exn + PageItem list) \<times> 'w session" where
  "fetchAllPageItemsWithSlugs cfg cl langs s =
     (let languagesToSearch = (case langs of Some l \<Rightarrow> l | None \<Rightarrow> getConfiguredLanguages cfg)
      in fetchLoop cl languagesToSearch [] s)"

definition unexpectedError :: "js_exn \<Rightarrow> DuplicateResult" where
  "unexpectedError e =
     \<lparr> duplicates = [], dr_totalItems = None, uniqueSlugs = None,
       dr_error = Some (''Unexpected error: '' @ message e) \<rparr>"

definition findDuplicateSlugs :: "AppConfig \<Rightarrow> 'w client \<Rightarrow> string list option \<Rightarrow> 'w session
    \<Rightarrow> DuplicateResult \<times> 'w session" where
  "findDuplicateSlugs cfg cl langs s =
     (if \<not> isConfigValid cfg
      then (\<lparr> duplicates = [], dr_totalItems = None, uniqueSlugs = None,
               dr_error = Some missingConfigMessage \<rparr>, s)
      else
        (let languagesToSearch = (case langs of Some l \<Rightarrow> l | None \<Rightarrow> getConfiguredLanguages cfg)
         in (case fetchAllPageItemsWithSlugs cfg cl (Some languagesToSearch) s of
               (Inl e, s') \<Rightarrow> (unexpectedError e, s')
             | (Inr allItems, s') \<Rightarrow>
                 let slugMap = buildSlugMap allItems
                 in (case findTrueDuplicates slugMap of
                       Inl e \<Rightarrow> (unexpectedError e, s')
                     | Inr dups \<Rightarrow>
                         (\<lparr> duplicates = dups, dr_totalItems = Some (length allItems),
                            uniqueSlugs = Some (length slugMap), dr_error = None \<rparr>, s')))))"

section \<open>Notions used in the statements\<close>

text \<open>The number of entries held by all lists of a slug map, and the entries themselves.\<close>

definition totalEntries :: "'a list js_map \<Rightarrow> nat" where
  "totalEntries m = sum_list (map (\<lambda>kv. length (snd kv)) m)"

definition allEntries :: "'a list js_map \<Rightarrow> 'a list" where
  "allEntries m = concat (map snd m)"

text \<open>
  Appending to the list of a key, the list being created when the key is new: what one
  iteration of either grouping loop amounts to when nothing is skipped and nothing raises.
\<close>

definition pushEntry :: "'a list js_map \<Rightarrow> string \<Rightarrow> 'a \<Rightarrow> 'a list js_map" where
  "pushEntry m k x =
     (case map_of m k of
        None \<Rightarrow> m @ [(k, [x])]
      | Some old \<Rightarrow> map_set m k (old @ [x]))"

definition typeErrorPush :: js_exn where
  "typeErrorPush = TypeError ''acc[item.codename].push is not a function''"

text \<open>The summary of a non-empty group.\<close>

definition summaryOf :: "string \<times> SlugEntry list \<Rightarrow> SlugEntry" where
  "summaryOf kv =
     \<lparr> name = name (hd (snd kv)), codename = fst kv,
       language = join '', '' (map language (snd kv)), slugField = slugField (hd (snd kv)) \<rparr>"

text \<open>The language tags of the records of one codename, one per record, in input order.\<close>

definition languagesOf :: "string \<Rightarrow> SlugEntry list \<Rightarrow> string list" where
  "languagesOf c recs = map language (filter (\<lambda>r. codename r = c) recs)"

text \<open>The deduplication key of \<^verbatim>\<open>removeDuplicateItems\<close>.\<close>

definition itemKey :: "ContentItem \<Rightarrow> string \<times> string" where
  "itemKey i = (ci_codename i, ci_language i)"

text \<open>
  The merger as the specification words it: the first record observed for a key wins,
  later records with that key are discarded. \<open>seen\<close> holds the keys observed so far.
\<close>

fun keepFirst :: "(string \<times> string) set \<Rightarrow> ContentItem list \<Rightarrow> ContentItem list" where
  "keepFirst seen [] = []"
| "keepFirst seen (x # xs) =
     (if itemKey x \<in> seen then keepFirst seen xs else x # keepFirst (insert (itemKey x) seen) xs)"

text \<open>The requests of \<^verbatim>\<open>searchWithDeliveryApi\<close>, two for each language.\<close>

definition equalsFilterRequests :: "string \<Rightarrow> string list \<Rightarrow> query list" where
  "equalsFilterRequests targetSlug langs =
     concat (map (\<lambda>lang. [EqualsFilter url_slug targetSlug lang, EqualsFilter slug targetSlug lang]) langs)"

section \<open>Concrete inputs\<close>

definition exampleConfig :: AppConfig where
  "exampleConfig =
     \<lparr> projectId = ''env-1'', environmentId = ''env-1'', deliveryApiKey = [],
       managementApiKey = ''mapi-key'', languages = [''de'', ''en''], defaultLanguage = ''en'' \<rparr>"

definition examplePage :: "string \<Rightarrow> string \<Rightarrow> string \<Rightarrow> string option \<Rightarrow> string option \<Rightarrow> PageItem" where
  "examplePage n c l u sl =
     \<lparr> system_name = n, system_codename = c, system_type = ''page'', system_language = l,
       elements_url_slug = u, elements_slug = sl \<rparr>"

text \<open>
  A repository with two entities on the slug \<^verbatim>\<open>contact\<close>, one entity on \<^verbatim>\<open>home\<close> and a
  page without slug, each translated into every language asked for.
\<close>

definition siteClient :: "unit client" where
  "siteClient q w =
     (case q of
        AllItems lang \<Rightarrow>
          (Inr [examplePage ''Article A'' ''article_a'' lang (Some ''contact'') None,
                examplePage ''Home'' ''home_page'' lang (Some ''home'') None,
                examplePage ''Article B'' ''article_b'' lang (Some []) (Some ''contact''),
                examplePage ''Draft'' ''draft'' lang None None], w)
      | EqualsFilter field t lang \<Rightarrow> (Inr [], w))"


text \<open>Two entities on the slug \<^verbatim>\<open>contact\<close>, one of them with the codename \<^verbatim>\<open>constructor\<close>.\<close>

definition constructorClient :: "unit client" where
  "constructorClient q w =
     (case q of
        AllItems lang \<Rightarrow>
          (Inr [examplePage ''Constructor'' ''constructor'' lang (Some ''contact'') None,
                examplePage ''Contact us'' ''contact_us'' lang (Some ''contact'') None], w)
      | EqualsFilter field t lang \<Rightarrow> (Inr [], w))"

definition constructorEntries :: "SlugEntry list" where
  "constructorEntries =
     [\<lparr> name = ''Constructor'', codename = ''constructor'', language = ''en'', slugField = url_slug \<rparr>,
      \<lparr> name = ''Contact us'', codename = ''contact_us'', language = ''en'', slugField = url_slug \<rparr>]"

text \<open>A repository without pages.\<close>

definition emptyClient :: "unit client" where
  "emptyClient q w = (Inr [], w)"





definition invalidConfig :: AppConfig where
  "invalidConfig = exampleConfig \<lparr> projectId := [] \<rparr>"

text \<open>The pages with a slug that \<open>siteClient\<close> lists for a language.\<close>

definition sitePagesIn :: "string \<Rightarrow> PageItem list" where
  "sitePagesIn lang =
     [examplePage ''Article A'' ''article_a'' lang (Some ''contact'') None,
      examplePage ''Home'' ''home_page'' lang (Some ''home'') None,
      examplePage ''Article B'' ''article_b'' lang (Some []) (Some ''contact'')]"




section \<open>Auxiliary lemmas\<close>

subsection \<open>Maps and objects\<close>

lemma map_of_map_set: "map_of (map_set m k v) = (map_of m)(k \<mapsto> v)"
  by (induction m) auto

lemma keys_map_set:
  "map fst (map_set m k v) = (if k \<in> set (map fst m) then map fst m else map fst m @ [k])"
  by (induction m) (auto simp: rev_image_eqI)

lemma map_set_fresh: "k \<notin> set (map fst m) \<Longrightarrow> map_set m k v = m @ [(k, v)]"
  by (induction m) auto

lemma map_of_pushEntry:
  "map_of (pushEntry m k x)
     = (map_of m)(k \<mapsto> (case map_of m k of None \<Rightarrow> [x] | Some old \<Rightarrow> old @ [x]))"
  by (auto simp: pushEntry_def map_of_map_set map_add_def fun_eq_iff split: option.splits)

lemma keys_pushEntry:
  "map fst (pushEntry m k x) = (if k \<in> set (map fst m) then map fst m else map fst m @ [k])"
  by (auto simp: pushEntry_def keys_map_set map_of_eq_None_iff split: option.splits)

subsection \<open>The reducer of \<^verbatim>\<open>groupItemsByCodename\<close>\<close>

text \<open>
  As long as no own property is an inherited name, a step either raises, on a codename that
  is an inherited name, or appends the record to the list of its codename.
\<close>

lemma group_step_eq:
  assumes "set (map fst acc) \<inter> set objectPrototypeKeys = {}"
  shows "group_step acc item =
     (if codename item \<in> set objectPrototypeKeys then Inl typeErrorPush
      else Inr (pushEntry acc (codename item) item))"
proof (cases "map_of acc (codename item)")
  case None
  then have fresh: "codename item \<notin> set (map fst acc)"
    by (simp add: map_of_eq_None_iff)
  have "map_set (map_set acc (codename item) []) (codename item) [item] = acc @ [(codename item, [item])]"
    using fresh by (induction acc) auto
  then show ?thesis
    using None
    by (simp add: group_step_def obj_get_def Let_def typeErrorPush_def pushEntry_def map_of_map_set)
next
  case (Some old)
  then have "codename item \<in> set (map fst acc)"
    by (metis map_of_eq_None_iff option.distinct(1) set_map)
  with assms have "codename item \<notin> set objectPrototypeKeys"
    by auto
  then show ?thesis
    using Some by (simp add: group_step_def obj_get_def Let_def pushEntry_def)
qed

lemma group_reduce_eq:
  "set (map fst acc) \<inter> set objectPrototypeKeys = {} \<Longrightarrow>
   group_reduce acc recs =
     (if list_ex (\<lambda>x. codename x \<in> set objectPrototypeKeys) recs then Inl typeErrorPush
      else Inr (foldl (\<lambda>m x. pushEntry m (codename x) x) acc recs))"
proof (induction recs arbitrary: acc)
  case Nil
  then show ?case by simp
next
  case (Cons x xs)
  show ?case
  proof (cases "codename x \<in> set objectPrototypeKeys")
    case True
    then show ?thesis using Cons.prems by (simp add: group_step_eq)
  next
    case False
    then have "set (map fst (pushEntry acc (codename x) x)) \<inter> set objectPrototypeKeys = {}"
      using Cons.prems by (auto simp: keys_pushEntry)
    from Cons.IH [OF this] show ?thesis
      using False Cons.prems by (simp add: group_step_eq)
  qed
qed

lemma map_of_foldl_push:
  "map_of (foldl (\<lambda>m x. pushEntry m (codename x) x) acc recs) k
     = (case map_of acc k of
          None \<Rightarrow> (if filter (\<lambda>x. codename x = k) recs = [] then None
                    else Some (filter (\<lambda>x. codename x = k) recs))
        | Some old \<Rightarrow> Some (old @ filter (\<lambda>x. codename x = k) recs))"
  by (induction recs arbitrary: acc) (auto simp: map_of_pushEntry split: option.splits)

lemma keys_foldl_push:
  "distinct (map fst acc) \<Longrightarrow>
   distinct (map fst (foldl (\<lambda>m x. pushEntry m (codename x) x) acc recs))
   \<and> set (map fst (foldl (\<lambda>m x. pushEntry m (codename x) x) acc recs))
       = set (map fst acc) \<union> codename ` set recs"
proof (induction recs arbitrary: acc)
  case Nil
  then show ?case by simp
next
  case (Cons x xs)
  have "distinct (map fst (pushEntry acc (codename x) x))"
    using Cons.prems by (simp add: keys_pushEntry)
  from Cons.IH [OF this] show ?case
    by (auto simp: keys_pushEntry)
qed

lemma mset_objectEntries: "mset (objectEntries obj) = mset obj"
  by (simp add: objectEntries_def)

lemma map_throwing_total:
  "map_throwing (\<lambda>x. Inr (f x)) xs = Inr (map f xs)"
  by (induction xs) auto

lemma map_throwing_cong:
  "(\<And>x. x \<in> set xs \<Longrightarrow> f x = g x) \<Longrightarrow> map_throwing f xs = map_throwing g xs"
proof (induction xs)
  case Nil
  then show ?case by simp
next
  case (Cons a xs)
  have "f a = g a" by (rule Cons.prems) simp
  moreover have "map_throwing f xs = map_throwing g xs"
    by (rule Cons.IH) (simp add: Cons.prems)
  ultimately show ?case by (simp split: sum.splits)
qed

lemma summarize_nonempty: "snd kv \<noteq> [] \<Longrightarrow> summarize kv = Inr (summaryOf kv)"
  by (cases "snd kv") (auto simp: summarize_def summaryOf_def)

lemma groupItemsByCodename_eq:
  "groupItemsByCodename recs =
     (if list_ex (\<lambda>x. codename x \<in> set objectPrototypeKeys) recs then Inl typeErrorPush
      else Inr (map summaryOf (objectEntries (foldl (\<lambda>m x. pushEntry m (codename x) x) [] recs))))"
proof (cases "list_ex (\<lambda>x. codename x \<in> set objectPrototypeKeys) recs")
  case True
  then show ?thesis by (simp add: groupItemsByCodename_def group_reduce_eq)
next
  case False
  let ?g = "foldl (\<lambda>m x. pushEntry m (codename x) x) [] recs"
  have ne: "snd kv \<noteq> []" if "kv \<in> set (objectEntries ?g)" for kv
  proof -
    have "set (objectEntries ?g) = set ?g"
      using mset_objectEntries [of ?g] by (rule mset_eq_setD)
    with that have "kv \<in> set ?g" by simp
    moreover have "distinct (map fst ?g)"
      using keys_foldl_push [of "[]" recs] by simp
    ultimately have "map_of ?g (fst kv) = Some (snd kv)"
      by simp
    then have "(if filter (\<lambda>x. codename x = fst kv) recs = [] then None
                else Some (filter (\<lambda>x. codename x = fst kv) recs)) = Some (snd kv)"
      by (simp add: map_of_foldl_push)
    then show ?thesis
      by (cases "filter (\<lambda>x. codename x = fst kv) recs = []") auto
  qed
  have "map_throwing summarize (objectEntries ?g) = map_throwing (\<lambda>kv. Inr (summaryOf kv)) (objectEntries ?g)"
    by (rule map_throwing_cong) (simp add: ne summarize_nonempty)
  then show ?thesis
    using False by (simp add: groupItemsByCodename_def group_reduce_eq map_throwing_total)
qed

subsection \<open>The loop of \<^verbatim>\<open>buildSlugMap\<close>\<close>

lemma mset_allEntries_map_set:
  "map_of m k = Some old \<Longrightarrow>
   mset (allEntries (map_set m k (old @ [x]))) = add_mset x (mset (allEntries m))"
  by (induction m) (auto simp: allEntries_def)

lemma total_map_set:
  "map_of m k = Some old \<Longrightarrow>
   totalEntries (map_set m k (old @ [x])) = Suc (totalEntries m)"
  by (induction m) (auto simp: totalEntries_def)

lemma total_pushEntry: "totalEntries (pushEntry m k x) = Suc (totalEntries m)"
  by (cases "map_of m k") (simp_all add: pushEntry_def total_map_set, simp add: totalEntries_def)

lemma mset_pushEntry: "mset (allEntries (pushEntry m k x)) = add_mset x (mset (allEntries m))"
  by (cases "map_of m k") (simp_all add: pushEntry_def mset_allEntries_map_set, simp add: allEntries_def)

lemma distinct_pushEntry: "distinct (map fst m) \<Longrightarrow> distinct (map fst (pushEntry m k x))"
  by (simp add: keys_pushEntry)

lemma step_skip: "\<not> hasSlugValue item \<Longrightarrow> buildSlugMap_step m item = m"
  by (auto simp: hasSlugValue_def buildSlugMap_step_def truthy_def split: option.splits)

lemma step_push:
  assumes "slugValue item = Some s" "s \<noteq> []"
  shows "buildSlugMap_step m item = pushEntry m s (slugEntry item)"
proof (cases "map_of m s")
  case None
  then have fresh: "s \<notin> set (map fst m)"
    by (simp add: map_of_eq_None_iff)
  then have "map_set m s [] = m @ [(s, [])]"
    by (rule map_set_fresh)
  moreover have "map_set (m @ [(s, [])]) s [slugEntry item] = m @ [(s, [slugEntry item])]"
    using fresh by (induction m) auto
  moreover have "map_of (m @ [(s, [])]) s = Some []"
    using None by (simp add: map_add_def)
  ultimately show ?thesis
    using assms None fresh
    by (simp add: buildSlugMap_step_def map_has_def map_get_def Let_def pushEntry_def del: map_of_append)
next
  case (Some old)
  then have "s \<in> set (map fst m)"
    by (metis map_of_eq_None_iff option.distinct(1) set_map)
  then show ?thesis
    using assms Some
    by (simp add: buildSlugMap_step_def map_has_def map_get_def Let_def pushEntry_def)
qed

lemma step_hasSlug:
  assumes "hasSlugValue item"
  shows "\<exists>s. s \<noteq> [] \<and> slugValue item = Some s \<and> buildSlugMap_step m item = pushEntry m s (slugEntry item)"
proof -
  from assms obtain s where s: "slugValue item = Some s" "s \<noteq> []"
    by (auto simp: hasSlugValue_def truthy_def split: option.splits)
  then show ?thesis using step_push [OF s] by blast
qed

lemma step_total:
  "totalEntries (buildSlugMap_step m item) = totalEntries m + (if hasSlugValue item then 1 else 0)"
  using step_hasSlug [of item m] by (auto simp: total_pushEntry step_skip)

lemma step_mset:
  "mset (allEntries (buildSlugMap_step m item))
     = mset (allEntries m) + (if hasSlugValue item then {#slugEntry item#} else {#})"
  using step_hasSlug [of item m] by (auto simp: mset_pushEntry step_skip)

lemma step_distinct:
  "distinct (map fst m) \<Longrightarrow> distinct (map fst (buildSlugMap_step m item))"
  using step_hasSlug [of item m] by (cases "hasSlugValue item") (auto simp: keys_pushEntry step_skip)

lemma foldl_step_total:
  "totalEntries (foldl buildSlugMap_step m pages)
     = totalEntries m + length (filter hasSlugValue pages)"
  by (induction pages arbitrary: m) (simp_all add: step_total)

lemma foldl_step_mset:
  "mset (allEntries (foldl buildSlugMap_step m pages))
     = mset (allEntries m) + mset (map slugEntry (filter hasSlugValue pages))"
  by (induction pages arbitrary: m) (simp_all add: step_mset)

lemma foldl_step_distinct:
  "distinct (map fst m) \<Longrightarrow> distinct (map fst (foldl buildSlugMap_step m pages))"
  by (induction pages arbitrary: m) (simp_all add: step_distinct)

lemma buildSlugMap_total:
  "totalEntries (buildSlugMap pages) = length (filter hasSlugValue pages)"
proof -
  have "totalEntries ([] :: SlugEntry list js_map) = 0"
    by (simp add: totalEntries_def)
  then show ?thesis
    by (simp add: buildSlugMap_def foldl_step_total)
qed

lemma buildSlugMap_mset:
  "mset (allEntries (buildSlugMap pages)) = mset (map slugEntry (filter hasSlugValue pages))"
proof -
  have "allEntries ([] :: SlugEntry list js_map) = []"
    by (simp add: allEntries_def)
  then show ?thesis
    by (simp add: buildSlugMap_def foldl_step_mset)
qed

lemma buildSlugMap_distinct: "distinct (map fst (buildSlugMap pages))"
  by (simp add: buildSlugMap_def foldl_step_distinct)

lemma fetchLoop_hasSlug:
  "fetchLoop cl langs acc s = (Inr allItems, s') \<Longrightarrow> list_all hasSlugValue acc
   \<Longrightarrow> list_all hasSlugValue allItems"
proof (induction langs arbitrary: acc s)
  case Nil
  then show ?case by simp
next
  case (Cons lang langs)
  obtain r s1 where r: "toAllPromise cl (AllItems lang) s = (r, s1)"
    by (cases "toAllPromise cl (AllItems lang) s")
  show ?case
  proof (cases r)
    case (Inl e)
    with Cons.prems r show ?thesis by simp
  next
    case (Inr its)
    with Cons.prems r have "fetchLoop cl langs (acc @ filter hasSlugValue its) s1 = (Inr allItems, s')"
      by simp
    moreover have "list_all hasSlugValue (acc @ filter hasSlugValue its)"
      using Cons.prems(2) by (auto simp: list_all_iff)
    ultimately show ?thesis by (rule Cons.IH)
  qed
qed

subsection \<open>\<^verbatim>\<open>removeDuplicateItems\<close> keeps the first record of a key\<close>











lemma keepFirst_subset: "set (keepFirst seen xs) \<subseteq> set xs"
  by (induction xs arbitrary: seen) auto



lemma keepFirst_append:
  "keepFirst seen (xs @ ys) = keepFirst seen xs @ keepFirst (seen \<union> itemKey ` set xs) ys"
proof (induction xs arbitrary: seen)
  case Nil
  then show ?case by simp
next
  case (Cons x xs)
  show ?case
  proof (cases "itemKey x \<in> seen")
    case True
    then have "seen \<union> itemKey ` set (x # xs) = seen \<union> itemKey ` set xs" by auto
    with True Cons.IH [of seen] show ?thesis by simp
  next
    case False
    have "insert (itemKey x) seen \<union> itemKey ` set xs = seen \<union> itemKey ` set (x # xs)" by auto
    with False Cons.IH [of "insert (itemKey x) seen"] show ?thesis by simp
  qed
qed


subsection \<open>A map that returns\<close>


lemma map_throwing_Inr_map:
  "map_throwing f xs = Inr ys \<Longrightarrow> map Inr ys = map f xs"
  by (induction xs arbitrary: ys) (auto split: sum.splits)

lemma map_throwing_Inl:
  "f x = Inl e \<Longrightarrow> x \<in> set xs \<Longrightarrow> \<exists>e'. map_throwing f xs = Inl e'"
  by (induction xs) (auto split: sum.splits)

subsection \<open>The summaries of \<^verbatim>\<open>groupItemsByCodename\<close>\<close>

lemma grouped_entry:
  assumes "kv \<in> set (foldl (\<lambda>m x. pushEntry m (codename x) x) [] recs)"
  shows "snd kv = filter (\<lambda>x. codename x = fst kv) recs \<and> snd kv \<noteq> []"
proof -
  let ?g = "foldl (\<lambda>m x. pushEntry m (codename x) x) [] recs"
  have "distinct (map fst ?g)"
    using keys_foldl_push [of "[]" recs] by simp
  with assms have "map_of ?g (fst kv) = Some (snd kv)" by simp
  then have "(if filter (\<lambda>x. codename x = fst kv) recs = [] then None
              else Some (filter (\<lambda>x. codename x = fst kv) recs)) = Some (snd kv)"
    by (simp add: map_of_foldl_push)
  then show ?thesis
    by (cases "filter (\<lambda>x. codename x = fst kv) recs = []") auto
qed

lemma groupItemsByCodename_Inr:
  assumes "groupItemsByCodename recs = Inr es"
  shows "\<not> list_ex (\<lambda>x. codename x \<in> set objectPrototypeKeys) recs"
    and "es = map summaryOf (objectEntries (foldl (\<lambda>m x. pushEntry m (codename x) x) [] recs))"
  using assms by (auto simp: groupItemsByCodename_eq split: if_splits)

lemma groupItemsByCodename_codenames:
  assumes "groupItemsByCodename recs = Inr es"
  shows "distinct (map codename es) \<and> set (map codename es) = codename ` set recs"
proof -
  let ?g = "foldl (\<lambda>m x. pushEntry m (codename x) x) [] recs"
  have es: "es = map summaryOf (objectEntries ?g)"
    using assms by (rule groupItemsByCodename_Inr)
  have "map codename es = map fst (objectEntries ?g)"
    by (simp add: es summaryOf_def)
  moreover have m: "mset (map fst (objectEntries ?g)) = mset (map fst ?g)"
    by (simp add: mset_objectEntries)
  moreover have "distinct (map fst (objectEntries ?g)) \<longleftrightarrow> distinct (map fst ?g)"
    using m by (rule mset_eq_imp_distinct_iff)
  moreover have "set (map fst (objectEntries ?g)) = set (map fst ?g)"
    using m by (rule mset_eq_setD)
  moreover have "distinct (map fst ?g) \<and> set (map fst ?g) = codename ` set recs"
    using keys_foldl_push [of "[]" recs] by simp
  ultimately show ?thesis
    by simp
qed

lemma groupItemsByCodename_summary:
  assumes "groupItemsByCodename recs = Inr es" and "e \<in> set es"
  shows "filter (\<lambda>r. codename r = codename e) recs \<noteq> []
       \<and> name e = name (hd (filter (\<lambda>r. codename r = codename e) recs))
       \<and> slugField e = slugField (hd (filter (\<lambda>r. codename r = codename e) recs))
       \<and> language e = join '', '' (languagesOf (codename e) recs)"
proof -
  let ?g = "foldl (\<lambda>m x. pushEntry m (codename x) x) [] recs"
  have es: "es = map summaryOf (objectEntries ?g)"
    using assms(1) by (rule groupItemsByCodename_Inr)
  have "set (objectEntries ?g) = set ?g"
    using mset_objectEntries [of ?g] by (rule mset_eq_setD)
  with assms(2) es obtain kv where kv: "kv \<in> set ?g" "e = summaryOf kv"
    by auto
  have c: "codename e = fst kv"
    by (simp add: kv(2) summaryOf_def)
  from grouped_entry [OF kv(1)]
  have g: "snd kv = filter (\<lambda>r. codename r = codename e) recs"
    and ne: "filter (\<lambda>r. codename r = codename e) recs \<noteq> []"
    unfolding c by auto
  have "name e = name (hd (snd kv))" "slugField e = slugField (hd (snd kv))"
    "language e = join '', '' (map language (snd kv))"
    by (simp_all add: kv(2) summaryOf_def)
  then show ?thesis
    using ne unfolding g languagesOf_def by simp
qed

lemma groupItemsByCodename_count:
  assumes "groupItemsByCodename recs = Inr es"
  shows "length es = card (uniqueCodenames recs)"
proof -
  from groupItemsByCodename_codenames [OF assms]
  have d: "distinct (map codename es)" and s: "set (map codename es) = codename ` set recs"
    by simp_all
  have "card (set (map codename es)) = length (map codename es)"
    using d by (rule distinct_card)
  then show ?thesis
    unfolding s by (simp add: uniqueCodenames_def)
qed




subsection \<open>The groups of \<^verbatim>\<open>findTrueDuplicates\<close>\<close>

lemma duplicateGroup_Inr:
  "duplicateGroup kv = Inr g \<Longrightarrow> dg_slug g = fst kv \<and> groupItemsByCodename (snd kv) = Inr (dg_items g)"
  by (auto simp: duplicateGroup_def split: sum.splits)


lemma findTrueDuplicates_slugs:
  assumes "findTrueDuplicates slugMap = Inr groups"
  shows "map dg_slug groups = map fst (filter isTrueDuplicate slugMap)"
proof -
  have "map_throwing f xs = Inr ys \<Longrightarrow> (\<And>x y. f x = Inr y \<Longrightarrow> h y = k x) \<Longrightarrow> map h ys = map k xs"
    for f :: "'a \<Rightarrow> js_exn + 'b" and xs ys and h :: "'b \<Rightarrow> 'c" and k
    by (induction xs arbitrary: ys) (auto split: sum.splits)
  from this [OF assms [unfolded findTrueDuplicates_def], of dg_slug fst] show ?thesis
    by (simp add: duplicateGroup_Inr)
qed

lemma findTrueDuplicates_total:
  assumes "\<And>kv. kv \<in> set slugMap \<Longrightarrow> \<not> list_ex (\<lambda>x. codename x \<in> set objectPrototypeKeys) (snd kv)"
  shows "\<exists>groups. findTrueDuplicates slugMap = Inr groups"
proof -
  have "(\<And>x. x \<in> set xs \<Longrightarrow> \<exists>y. f x = Inr y) \<Longrightarrow> \<exists>ys. map_throwing f xs = Inr ys"
    for f :: "(string \<times> SlugEntry list) \<Rightarrow> js_exn + DuplicateGroup" and xs
  proof (induction xs)
    case Nil
    then show ?case by simp
  next
    case (Cons a xs)
    then obtain y ys where "f a = Inr y" "map_throwing f xs = Inr ys"
      by (metis list.set_intros(1) list.set_intros(2))
    then show ?case by simp
  qed
  moreover have "\<exists>y. duplicateGroup kv = Inr y" if "kv \<in> set (filter isTrueDuplicate slugMap)" for kv
    using that assms [of kv] by (simp add: duplicateGroup_def groupItemsByCodename_eq)
  ultimately show ?thesis
    unfolding findTrueDuplicates_def by blast
qed


subsection \<open>The search strategies and their requests\<close>










subsection \<open>Empty listings\<close>

lemma fetchLoop_empty:
  assumes "\<forall>lang\<in>set langs. \<forall>w. fst (cl (AllItems lang) w) = Inr []"
  shows "fst (fetchLoop cl langs found s) = Inr found"
  using assms
proof (induction langs arbitrary: s)
  case Nil
  then show ?case by simp
next
  case (Cons lang langs)
  obtain r w' where r: "cl (AllItems lang) (fst s) = (r, w')"
    by (cases "cl (AllItems lang) (fst s)")
  moreover have "fst (cl (AllItems lang) (fst s)) = Inr []"
    using Cons.prems by simp
  ultimately have "r = Inr []" by simp
  with r Cons show ?case
    by (simp add: toAllPromise_def)
qed

subsection \<open>Grouping and classification without inherited property names\<close>

lemma groupItemsByCodename_summaries:
  assumes "\<not> list_ex (\<lambda>x. codename x \<in> set objectPrototypeKeys) recs"
  shows "\<exists>es. groupItemsByCodename recs = Inr es
      \<and> length es = card (uniqueCodenames recs)
      \<and> distinct (map codename es) \<and> set (map codename es) = codename ` set recs
      \<and> (\<forall>e\<in>set es.
            filter (\<lambda>r. codename r = codename e) recs \<noteq> []
            \<and> name e = name (hd (filter (\<lambda>r. codename r = codename e) recs))
            \<and> slugField e = slugField (hd (filter (\<lambda>r. codename r = codename e) recs))
            \<and> language e = join '', '' (languagesOf (codename e) recs))"
proof -
  from assms obtain es where es: "groupItemsByCodename recs = Inr es"
    by (simp add: groupItemsByCodename_eq)
  show ?thesis
    using es groupItemsByCodename_count [OF es] groupItemsByCodename_codenames [OF es]
      groupItemsByCodename_summary [OF es]
    by blast
qed

lemma groupItemsByCodename_raises:
  assumes "list_ex (\<lambda>x. codename x \<in> set objectPrototypeKeys) recs"
  shows "groupItemsByCodename recs = Inl typeErrorPush"
  using assms by (simp add: groupItemsByCodename_eq)

lemma isTrueDuplicate_iff: "isTrueDuplicate kv \<longleftrightarrow> 2 \<le> card (codename ` set (snd kv))"
  by (auto simp: isTrueDuplicate_def uniqueCodenames_def)

lemma findTrueDuplicates_classifies:
  assumes "\<And>kv. kv \<in> set slugMap \<Longrightarrow> \<not> list_ex (\<lambda>x. codename x \<in> set objectPrototypeKeys) (snd kv)"
  shows "\<exists>groups. findTrueDuplicates slugMap = Inr groups
      \<and> map dg_slug groups = map fst (filter (\<lambda>kv. 2 \<le> card (codename ` set (snd kv))) slugMap)"
proof -
  from findTrueDuplicates_total [OF assms] obtain groups
    where groups: "findTrueDuplicates slugMap = Inr groups"
    by blast
  have "filter isTrueDuplicate slugMap = filter (\<lambda>kv. 2 \<le> card (codename ` set (snd kv))) slugMap"
    by (simp add: isTrueDuplicate_iff [abs_def])
  with findTrueDuplicates_slugs [OF groups] groups show ?thesis
    by simp
qed

section \<open>The claims\<close>

text \<open>
  Claim C1: the duplicate classifier reports a slug as a true duplicate exactly when its
  records carry two or more distinct codenames.

  The filter of \<^verbatim>\<open>findTrueDuplicates\<close> decides exactly that (\<open>isTrueDuplicate\<close>), and
  \<open>findTrueDuplicates_classifies\<close> above shows that the slugs reported are the slugs that pass
  it whenever the grouping of each of them returns. It does not always return: below, the
  pages \<^verbatim>\<open>Constructor\<close> and \<^verbatim>\<open>Contact us\<close> share the slug \<^verbatim>\<open>contact\<close>, the slug has two
  distinct codenames, and the run ends in the \<^verbatim>\<open>catch\<close> of \<^verbatim>\<open>findDuplicateSlugs\<close> with
  no duplicate reported, because the codename \<^verbatim>\<open>constructor\<close> names a property that the
  accumulator \<^verbatim>\<open>{}\<close> of \<^verbatim>\<open>groupItemsByCodename\<close> inherits.
\<close>

theorem constructor_codename_not_reported:
  "fst (fetchAllPageItemsWithSlugs exampleConfig constructorClient (Some [''en'']) ((), []))
       = Inr [examplePage ''Constructor'' ''constructor'' ''en'' (Some ''contact'') None,
              examplePage ''Contact us'' ''contact_us'' ''en'' (Some ''contact'') None]
   \<and> buildSlugMap [examplePage ''Constructor'' ''constructor'' ''en'' (Some ''contact'') None,
                    examplePage ''Contact us'' ''contact_us'' ''en'' (Some ''contact'') None]
       = [(''contact'', constructorEntries)]
   \<and> card (uniqueCodenames constructorEntries) = 2
   \<and> isTrueDuplicate (''contact'', constructorEntries)
   \<and> findTrueDuplicates [(''contact'', constructorEntries)] = Inl typeErrorPush
   \<and> fst (findDuplicateSlugs exampleConfig constructorClient (Some [''en'']) ((), []))
       = \<lparr> duplicates = [], dr_totalItems = None, uniqueSlugs = None,
           dr_error = Some ''Unexpected error: acc[item.codename].push is not a function'' \<rparr>"
  by code_simp

text \<open>
  Claim C2: for the items that \<^verbatim>\<open>fetchAllPageItemsWithSlugs\<close> hands to
  \<^verbatim>\<open>buildSlugMap\<close> (the only caller of this module-private function), the lengths of the
  lists of the slug map add up to the number of items; the entries of all lists are, as a
  multiset, the entries made from the items, so none is dropped and none is duplicated; and
  the keys of the map are distinct, so each entry is in one list.
\<close>

theorem buildSlugMap_preserves_count:
  assumes "fetchAllPageItemsWithSlugs cfg cl langs s = (Inr allItems, s')"
  shows "totalEntries (buildSlugMap allItems) = length allItems
       \<and> mset (allEntries (buildSlugMap allItems)) = mset (map slugEntry allItems)
       \<and> distinct (map fst (buildSlugMap allItems))"
proof -
  have "list_all hasSlugValue allItems"
    using assms fetchLoop_hasSlug [of cl _ "[]" s allItems s']
    by (simp add: fetchAllPageItemsWithSlugs_def)
  then have "filter hasSlugValue allItems = allItems"
    by (simp add: list_all_iff)
  then show ?thesis
    using buildSlugMap_total [of allItems] buildSlugMap_mset [of allItems] buildSlugMap_distinct [of allItems]
    by simp
qed

text \<open>
  The theorem at the six pages with a slug that \<open>siteClient\<close> lists for two languages.
\<close>

theorem buildSlugMap_preserves_count_witness:
  "fetchAllPageItemsWithSlugs exampleConfig siteClient None ((), [])
      = (Inr (sitePagesIn ''de'' @ sitePagesIn ''en''), ((), [AllItems ''de'', AllItems ''en'']))
   \<and> totalEntries (buildSlugMap (sitePagesIn ''de'' @ sitePagesIn ''en''))
      = length (sitePagesIn ''de'' @ sitePagesIn ''en'')
   \<and> length (sitePagesIn ''de'' @ sitePagesIn ''en'') = 6
   \<and> distinct (map fst (buildSlugMap (sitePagesIn ''de'' @ sitePagesIn ''en'')))"
proof -
  have run: "fetchAllPageItemsWithSlugs exampleConfig siteClient None ((), [])
      = (Inr (sitePagesIn ''de'' @ sitePagesIn ''en''), ((), [AllItems ''de'', AllItems ''en'']))"
    by code_simp
  have len: "length (sitePagesIn ''de'' @ sitePagesIn ''en'') = 6"
    by (simp add: sitePagesIn_def)
  from buildSlugMap_preserves_count [OF run] run len show ?thesis
    by blast
qed

text \<open>
  Claim C3: the result grouper produces one summary for each distinct codename, with the
  name and the slug field of the first record of the codename and the languages of all its
  records.

  \<open>groupItemsByCodename_summaries\<close> above proves this for every input in which no codename is
  a property name of \<^verbatim>\<open>Object.prototype\<close>. For the other inputs the function raises: with
  the codenames \<^verbatim>\<open>constructor\<close> and \<^verbatim>\<open>contact_us\<close> there are two distinct codenames and
  no summary at all.
\<close>

theorem constructor_codename_not_grouped:
  "card (uniqueCodenames constructorEntries) = 2
   \<and> groupItemsByCodename constructorEntries
       = Inl (TypeError ''acc[item.codename].push is not a function'')"
  by code_simp








text \<open>
  Claim C7: with a valid configuration and an empty answer to the listing of every
  language searched, \<^verbatim>\<open>findDuplicateSlugs\<close> returns no duplicates, \<^verbatim>\<open>totalItems\<close> 0,
  \<^verbatim>\<open>uniqueSlugs\<close> 0 and no error. A result of any run that carries an error has an empty
  list of duplicates too, and no \<^verbatim>\<open>totalItems\<close>: the error field tells the two apart, the
  list does not.
\<close>

theorem empty_fetch_is_success:
  assumes "isConfigValid cfg"
    and "\<forall>lang\<in>set (case langs of Some l \<Rightarrow> l | None \<Rightarrow> getConfiguredLanguages cfg).
           \<forall>w. fst (cl (AllItems lang) w) = Inr []"
  shows "fst (findDuplicateSlugs cfg cl langs s)
           = \<lparr> duplicates = [], dr_totalItems = Some 0, uniqueSlugs = Some 0, dr_error = None \<rparr>
       \<and> (dr_error (fst (findDuplicateSlugs cfg2 cl2 langs2 s2)) \<noteq> None
            \<longrightarrow> duplicates (fst (findDuplicateSlugs cfg2 cl2 langs2 s2)) = []
              \<and> dr_totalItems (fst (findDuplicateSlugs cfg2 cl2 langs2 s2)) = None)"
proof -
  let ?langs = "case langs of Some l \<Rightarrow> l | None \<Rightarrow> getConfiguredLanguages cfg"
  have "fst (fetchLoop cl ?langs [] s) = Inr []"
    using assms(2) by (rule fetchLoop_empty)
  then obtain s' where "fetchLoop cl ?langs [] s = (Inr [], s')"
    by (cases "fetchLoop cl ?langs [] s") simp
  then have "fst (findDuplicateSlugs cfg cl langs s)
      = \<lparr> duplicates = [], dr_totalItems = Some 0, uniqueSlugs = Some 0, dr_error = None \<rparr>"
    using assms(1)
    by (simp add: findDuplicateSlugs_def fetchAllPageItemsWithSlugs_def buildSlugMap_def
        findTrueDuplicates_def Let_def)
  moreover have "dr_error (fst (findDuplicateSlugs cfg2 cl2 langs2 s2)) \<noteq> None
      \<longrightarrow> duplicates (fst (findDuplicateSlugs cfg2 cl2 langs2 s2)) = []
        \<and> dr_totalItems (fst (findDuplicateSlugs cfg2 cl2 langs2 s2)) = None"
    by (simp add: findDuplicateSlugs_def unexpectedError_def Let_def split: prod.splits sum.splits)
  ultimately show ?thesis by blast
qed

text \<open>
  The theorem at a repository without pages, and at the invalid configuration for the
  result with an error.
\<close>

theorem empty_fetch_is_success_witness:
  "isConfigValid exampleConfig
   \<and> fst (findDuplicateSlugs exampleConfig emptyClient None ((), []))
       = \<lparr> duplicates = [], dr_totalItems = Some 0, uniqueSlugs = Some 0, dr_error = None \<rparr>
   \<and> dr_error (fst (findDuplicateSlugs invalidConfig emptyClient None ((), []))) \<noteq> None
   \<and> duplicates (fst (findDuplicateSlugs invalidConfig emptyClient None ((), []))) = []"
proof -
  have valid: "isConfigValid exampleConfig"
    by code_simp
  have empty: "\<forall>lang\<in>set (case None of Some l \<Rightarrow> l | None \<Rightarrow> getConfiguredLanguages exampleConfig).
      \<forall>w. fst (emptyClient (AllItems lang) w) = Inr []"
    by (simp add: emptyClient_def)
  have failure: "dr_error (fst (findDuplicateSlugs invalidConfig emptyClient None ((), []))) \<noteq> None"
    by code_simp
  from empty_fetch_is_success [OF valid empty, of "((), [])" invalidConfig emptyClient None "((), [])"]
    valid failure
  show ?thesis
    by simp
qed

text \<open>
  Claim C8: with an invalid configuration \<^verbatim>\<open>findDuplicateSlugs\<close> returns an empty list
  of duplicates with the error set, \<^verbatim>\<open>searchSpecificSlug\<close> returns \<^verbatim>\<open>success = false\<close>
  with no items and the error set, and both leave the session as it was: the log of
  requests is unchanged, so no request was sent.
\<close>

theorem invalid_config_no_fetch:
  assumes "\<not> isConfigValid cfg"
  shows "findDuplicateSlugs cfg cl langs s
           = (\<lparr> duplicates = [], dr_totalItems = None, uniqueSlugs = None,
                 dr_error = Some missingConfigMessage \<rparr>, s)
       \<and> searchSpecificSlug cfg cl t s
           = (\<lparr> success = False, items = [], error = Some missingConfigMessage, apiMethod = ''none'',
                 totalItems = None, exactMatches = None, allSlugsCount = None, apiNote = None,
                 deliveryApi = None, deliveryApiAllItems = None, managementApi = None \<rparr>, s)"
  using assms by (simp add: findDuplicateSlugs_def searchSpecificSlug_def)

text \<open>
  The theorem at a configuration without project id.
\<close>

theorem invalid_config_no_fetch_witness:
  "\<not> isConfigValid invalidConfig
   \<and> findDuplicateSlugs invalidConfig siteClient None ((), [])
       = (\<lparr> duplicates = [], dr_totalItems = None, uniqueSlugs = None,
             dr_error = Some missingConfigMessage \<rparr>, ((), []))
   \<and> searchSpecificSlug invalidConfig siteClient ''contact'' ((), [])
       = (\<lparr> success = False, items = [], error = Some missingConfigMessage, apiMethod = ''none'',
             totalItems = None, exactMatches = None, allSlugsCount = None, apiNote = None,
             deliveryApi = None, deliveryApiAllItems = None, managementApi = None \<rparr>, ((), []))"
proof -
  have invalid: "\<not> isConfigValid invalidConfig"
    by code_simp
  from invalid_config_no_fetch [OF invalid, of siteClient None "((), [])" "''contact''"] invalid
  show ?thesis
    by simp
qed

text \<open>
  Claim C9: a non-empty \<^verbatim>\<open>url_slug\<close> value is the slug and \<^verbatim>\<open>slugField\<close> records
  \<^verbatim>\<open>url_slug\<close>; when the \<^verbatim>\<open>url_slug\<close> element is absent or holds the empty string, a
  non-empty \<^verbatim>\<open>slug\<close> value is the slug and \<^verbatim>\<open>slugField\<close> records \<^verbatim>\<open>slug\<close>. This
  holds for \<^verbatim>\<open>formatSDKItem\<close> and for the entry and the key that \<^verbatim>\<open>buildSlugMap\<close>
  makes.
\<close>

theorem slug_extractor_prefers_url_slug:
  "(elements_url_slug item = Some u \<and> u \<noteq> [] \<longrightarrow>
      slugValue item = Some u
      \<and> ci_slug (formatSDKItem item lang) = u \<and> ci_slugField (formatSDKItem item lang) = url_slug
      \<and> slugField (slugEntry item) = url_slug
      \<and> buildSlugMap [item] = [(u, [slugEntry item])])
   \<and> ((elements_url_slug item = None \<or> elements_url_slug item = Some []) \<and> elements_slug item = Some v \<and> v \<noteq> [] \<longrightarrow>
      slugValue item = Some v
      \<and> ci_slug (formatSDKItem item lang) = v \<and> ci_slugField (formatSDKItem item lang) = slug
      \<and> slugField (slugEntry item) = slug
      \<and> buildSlugMap [item] = [(v, [slugEntry item])])"
proof -
  have build: "buildSlugMap [item] = [(x, [slugEntry item])]" if "slugValue item = Some x" "x \<noteq> []" for x
    using step_push [OF that, of "[]"] by (simp add: buildSlugMap_def pushEntry_def)
  have first: "slugValue item = Some u" if "elements_url_slug item = Some u" "u \<noteq> []"
    using that by (simp add: slugValue_def or_else_def truthy_def)
  have second: "slugValue item = Some v"
    if "elements_url_slug item = None \<or> elements_url_slug item = Some []" "elements_slug item = Some v"
    using that by (auto simp: slugValue_def or_else_def truthy_def)
  have primary: "slugValue item = Some u
      \<and> ci_slug (formatSDKItem item lang) = u \<and> ci_slugField (formatSDKItem item lang) = url_slug
      \<and> slugField (slugEntry item) = url_slug
      \<and> buildSlugMap [item] = [(u, [slugEntry item])]"
    if h: "elements_url_slug item = Some u \<and> u \<noteq> []"
  proof -
    from h have sv: "slugValue item = Some u" and ne: "u \<noteq> []"
      using first by simp_all
    from h have "truthy (elements_url_slug item)"
      by (simp add: truthy_def)
    then show ?thesis
      using sv ne build [OF sv ne] by (simp add: formatSDKItem_def slugEntry_def or_default_def)
  qed
  have secondary: "slugValue item = Some v
      \<and> ci_slug (formatSDKItem item lang) = v \<and> ci_slugField (formatSDKItem item lang) = slug
      \<and> slugField (slugEntry item) = slug
      \<and> buildSlugMap [item] = [(v, [slugEntry item])]"
    if h: "(elements_url_slug item = None \<or> elements_url_slug item = Some []) \<and> elements_slug item = Some v \<and> v \<noteq> []"
  proof -
    from h have sv: "slugValue item = Some v" and ne: "v \<noteq> []"
      using second by simp_all
    from h have "\<not> truthy (elements_url_slug item)"
      by (auto simp: truthy_def)
    then show ?thesis
      using sv ne build [OF sv ne] by (simp add: formatSDKItem_def slugEntry_def or_default_def)
  qed
  show ?thesis
    using primary secondary by blast
qed

text \<open>
  The theorem at a page with both values and at a page whose \<^verbatim>\<open>url_slug\<close> is the empty
  string.
\<close>

theorem slug_extractor_prefers_url_slug_witness:
  "ci_slug (formatSDKItem (examplePage ''Article A'' ''article_a'' ''en'' (Some ''contact'') (Some ''other'')) ''en'')
     = ''contact''
   \<and> ci_slugField (formatSDKItem (examplePage ''Article A'' ''article_a'' ''en'' (Some ''contact'') (Some ''other'')) ''en'')
     = url_slug
   \<and> ci_slug (formatSDKItem (examplePage ''Article B'' ''article_b'' ''en'' (Some []) (Some ''contact'')) ''en'')
     = ''contact''
   \<and> ci_slugField (formatSDKItem (examplePage ''Article B'' ''article_b'' ''en'' (Some []) (Some ''contact'')) ''en'')
     = slug
   \<and> buildSlugMap [examplePage ''Article B'' ''article_b'' ''en'' (Some []) (Some ''contact'')]
     = [(''contact'', [slugEntry (examplePage ''Article B'' ''article_b'' ''en'' (Some []) (Some ''contact''))])]"
proof -
  let ?p1 = "examplePage ''Article A'' ''article_a'' ''en'' (Some ''contact'') (Some ''other'')"
  let ?p2 = "examplePage ''Article B'' ''article_b'' ''en'' (Some []) (Some ''contact'')"
  have h1: "elements_url_slug ?p1 = Some ''contact'' \<and> ''contact'' \<noteq> []"
    by (simp add: examplePage_def)
  have h2: "(elements_url_slug ?p2 = None \<or> elements_url_slug ?p2 = Some [])
      \<and> elements_slug ?p2 = Some ''contact'' \<and> ''contact'' \<noteq> []"
    by (simp add: examplePage_def)
  from slug_extractor_prefers_url_slug [of ?p1 "''contact''" "''en''" "''contact''"]
    slug_extractor_prefers_url_slug [of ?p2 "''contact''" "''en''" "''contact''"] h1 h2
  show ?thesis
    by blast
qed

text \<open>
  Claim C10: \<^verbatim>\<open>searchWithManagementApi\<close> returns success with no items for every target
  slug. With a valid configuration \<^verbatim>\<open>searchSpecificSlug\<close> calls it exactly when a
  management API key is set, the merged items are those of the two delivery strategies,
  and the session after the search is the session after the two delivery strategies: the
  management strategy sends no request.
\<close>

theorem management_strategy_placeholder:
  "success (searchWithManagementApi t) \<and> items (searchWithManagementApi t) = []
   \<and> (isConfigValid cfg \<longrightarrow>
        managementApi (fst (searchSpecificSlug cfg cl t s))
          = (if managementApiKey cfg \<noteq> [] then Some (searchWithManagementApi t) else None)
      \<and> items (fst (searchSpecificSlug cfg cl t s))
          = removeDuplicateItems
              (items (fst (searchWithDeliveryApi cfg cl t s))
               @ items (fst (searchAllItemsDeliveryApi cfg cl t (snd (searchWithDeliveryApi cfg cl t s)))))
      \<and> snd (searchSpecificSlug cfg cl t s)
          = snd (searchAllItemsDeliveryApi cfg cl t (snd (searchWithDeliveryApi cfg cl t s))))"
  by (simp add: searchSpecificSlug_def searchWithManagementApi_def Let_def split: prod.splits)

text \<open>
  The theorem at a configuration with a management API key.
\<close>

theorem management_strategy_placeholder_witness:
  "isConfigValid exampleConfig
   \<and> managementApi (fst (searchSpecificSlug exampleConfig siteClient ''contact'' ((), [])))
       = Some (searchWithManagementApi ''contact'')
   \<and> items (searchWithManagementApi ''contact'') = []
   \<and> snd (searchSpecificSlug exampleConfig siteClient ''contact'' ((), []))
       = ((), equalsFilterRequests ''contact'' LANGUAGE_CODES
              @ [AllItems ''de'', AllItems ''en'', AllItems ''zh''])"
proof -
  have valid: "isConfigValid exampleConfig"
    by code_simp
  have key: "managementApiKey exampleConfig \<noteq> []"
    by (simp add: exampleConfig_def)
  have log: "snd (searchAllItemsDeliveryApi exampleConfig siteClient ''contact''
                  (snd (searchWithDeliveryApi exampleConfig siteClient ''contact'' ((), []))))
       = ((), equalsFilterRequests ''contact'' LANGUAGE_CODES
              @ [AllItems ''de'', AllItems ''en'', AllItems ''zh''])"
    by code_simp
  from management_strategy_placeholder [of "''contact''" exampleConfig siteClient "((), [])"] valid key log
  show ?thesis
    by simp
qed

end
